theory Spec2Isabelle
  imports Main
begin

section \<open>Go values shared by both packages\<close>

text \<open>
  A Go slice is modelled as a list. A nil slice and an empty slice are both \<open>[]\<close>:
  \<open>len\<close>, \<open>range\<close>, \<open>append\<close> and indexing treat them alike, and the code never
  compares a slice with nil.

  A run-time panic is a value: every function that can panic returns \<open>panic + 'a\<close>,
  with \<open>Inl\<close> for the panic.
\<close>

datatype panic = NilDereference | IndexOutOfRange

text \<open>
  Go \<open>error\<close> values. \<open>iterator_Done\<close> is the sentinel \<open>iterator.Done\<close>, compared by
  identity in the code, so it is a constructor of its own. \<open>errorString\<close> is what
  \<open>errors.New\<close> returns, \<open>wrapError\<close> what \<open>fmt.Errorf\<close> returns for a format with
  \<open>%w\<close> (the formatted message and the wrapped error), and \<open>errMsg\<close> is the struct
  \<open>errMsg{err}\<close> of package tui, which is an error through its \<open>Error\<close> method.
\<close>

datatype error =
    iterator_Done
  | errorString string
  | wrapError string error
  | errMsg error

fun Error :: "error \<Rightarrow> string" where
  "Error iterator_Done = ''no more items in iterator''"
| "Error (errorString s) = s"
| "Error (wrapError msg e) = msg"
| "Error (errMsg e) = Error e"

fun Unwrap :: "error \<Rightarrow> error option" where
  "Unwrap (wrapError msg e) = Some e"
| "Unwrap e = None"

text \<open>\<open>errors.Is\<close>: walks the chain of wrapped errors.\<close>

fun errors_Is :: "error \<Rightarrow> error \<Rightarrow> bool" where
  "errors_Is (wrapError msg e) target = (wrapError msg e = target \<or> errors_Is e target)"
| "errors_Is e target = (e = target)"

text \<open>\<open>fmt.Errorf(prefix + "%w", err)\<close>.\<close>

definition fmt_Errorf_w :: "string \<Rightarrow> error \<Rightarrow> error" where
  "fmt_Errorf_w prefix e = wrapError (prefix @ Error e) e"

section \<open>Package gcp\<close>

subsection \<open>\<open>path.Base\<close> of the Go standard library\<close>

text \<open>
  \<open>path.Base\<close>: the empty path gives \<open>"."\<close>; trailing slashes are stripped; what
  follows the last remaining slash is kept; a path of slashes only gives \<open>"/"\<close>.
\<close>

definition strip_trailing_slashes :: "string \<Rightarrow> string" where
  "strip_trailing_slashes p = rev (dropWhile (\<lambda>c. c = CHR ''/'') (rev p))"

definition after_last_slash :: "string \<Rightarrow> string" where
  "after_last_slash p = rev (takeWhile (\<lambda>c. c \<noteq> CHR ''/'') (rev p))"

definition path_Base :: "string \<Rightarrow> string" where
  "path_Base p =
     (if p = [] then ''.''
      else let p' = after_last_slash (strip_trailing_slashes p)
           in if p' = [] then ''/'' else p')"

subsection \<open>The data of the inventory source\<close>

text \<open>\<open>gcp.Instance\<close>.\<close>

record Instance =
  Name :: string
  Zone :: string

text \<open>
  \<open>computepb.Instance\<close>: \<open>Name\<close> and \<open>Zone\<close> are \<open>*string\<close>, so each may be nil
  (\<open>pb_Name\<close> and \<open>pb_Zone\<close> here, apart from the fields of \<open>gcp.Instance\<close>).
  \<open>computepb.InstancesScopedList\<close> holds the instances of one scope, and
  \<open>compute.InstancesScopedListPair\<close> is what the iterator yields: a key and a
  pointer to a scoped list, which may be nil.
\<close>

record computepb_Instance =
  pb_Name :: "string option"
  pb_Zone :: "string option"

record InstancesScopedList =
  Instances :: "computepb_Instance list"

record InstancesScopedListPair =
  Key :: string
  Value :: "InstancesScopedList option"

text \<open>
  \<open>compute.InstancesIterator\<close>: the results of the successive calls of \<open>it.Next()\<close>,
  each an error (\<open>Inl\<close>) or a pair (\<open>Inr\<close>). When the list is used up \<open>Next\<close>
  returns \<open>iterator.Done\<close>. The scopes of a project are finitely many: an
  iterator that never ends is not modelled.
\<close>

type_synonym InstancesIterator = "(error + InstancesScopedListPair) list"

text \<open>
  \<open>Client\<close>: the field \<open>api\<close> is the interface \<open>instancesAPI\<close>; its method
  \<open>AggregatedList\<close> maps the project of the request to an iterator.
\<close>

record Client =
  api :: "string \<Rightarrow> InstancesIterator"

subsection \<open>\<open>Client.FetchInstances\<close>\<close>

text \<open>
  The inner loop \<open>for _, instance := range pair.Value.Instances\<close>: it dereferences
  \<open>instance.Zone\<close>, then \<open>instance.Name\<close>, and appends one record.
\<close>

fun append_instances :: "computepb_Instance list \<Rightarrow> Instance list \<Rightarrow> panic + Instance list" where
  "append_instances [] vms = Inr vms"
| "append_instances (instance # rest) vms =
     (case pb_Zone instance of
        None \<Rightarrow> Inl NilDereference
      | Some z \<Rightarrow>
          (case pb_Name instance of
             None \<Rightarrow> Inl NilDereference
           | Some n \<Rightarrow> append_instances rest (vms @ [\<lparr>Name = n, Zone = path_Base z\<rparr>])))"

text \<open>
  The outer loop \<open>for { pair, err := it.Next() ... }\<close> with the accumulator \<open>vms\<close>.
  The result is the pair that the Go function returns: the slice and the error
  (\<open>None\<close> for nil).
\<close>

fun FetchInstances_loop ::
  "InstancesIterator \<Rightarrow> Instance list \<Rightarrow> panic + (Instance list \<times> error option)" where
  "FetchInstances_loop [] vms = Inr (vms, None)"
| "FetchInstances_loop (Inl e # it) vms =
     (if e = iterator_Done then Inr (vms, None)
      else Inr ([], Some (fmt_Errorf_w ''failed to iterate over instances: '' e)))"
| "FetchInstances_loop (Inr pair # it) vms =
     (case Value pair of
        None \<Rightarrow> FetchInstances_loop it vms
      | Some v \<Rightarrow>
          if length (Instances v) > 0 then
            (case append_instances (Instances v) vms of
               Inl p \<Rightarrow> Inl p
             | Inr vms' \<Rightarrow> FetchInstances_loop it vms')
          else FetchInstances_loop it vms)"

definition FetchInstances :: "Client \<Rightarrow> string \<Rightarrow> panic + (Instance list \<times> error option)" where
  "FetchInstances c projectID = FetchInstances_loop (api c projectID) []"

subsection \<open>What the iterator holds\<close>

text \<open>
  The functions below describe an iterator, for the statements about
  \<open>FetchInstances\<close>: the first result of \<open>Next\<close> that is an error other than
  \<open>iterator.Done\<close>, if the iteration meets one before it ends; the pairs yielded
  before the first error or \<open>iterator.Done\<close>; the instances of these pairs, in
  the order of the iteration; and the record that lines 57 and 58 build from one
  instance that has a name and a zone.
\<close>

fun first_error :: "InstancesIterator \<Rightarrow> error option" where
  "first_error [] = None"
| "first_error (Inl e # it) = (if e = iterator_Done then None else Some e)"
| "first_error (Inr pair # it) = first_error it"

fun consumed :: "InstancesIterator \<Rightarrow> InstancesScopedListPair list" where
  "consumed [] = []"
| "consumed (Inl e # it) = []"
| "consumed (Inr pair # it) = pair # consumed it"

definition pair_instances :: "InstancesScopedListPair \<Rightarrow> computepb_Instance list" where
  "pair_instances pair = (case Value pair of None \<Rightarrow> [] | Some v \<Rightarrow> Instances v)"

definition source_instances :: "InstancesIterator \<Rightarrow> computepb_Instance list" where
  "source_instances it = concat (map pair_instances (consumed it))"

definition has_name_and_zone :: "computepb_Instance \<Rightarrow> bool" where
  "has_name_and_zone i = (pb_Name i \<noteq> None \<and> pb_Zone i \<noteq> None)"

definition record_of :: "computepb_Instance \<Rightarrow> Instance option" where
  "record_of i =
     (case pb_Zone i of
        None \<Rightarrow> None
      | Some z \<Rightarrow>
          (case pb_Name i of
             None \<Rightarrow> None
           | Some n \<Rightarrow> Some \<lparr>Name = n, Zone = path_Base z\<rparr>))"

subsection \<open>Iterators of the tests\<close>

text \<open>
  The iterator of \<open>TestFetchInstances_Success\<close>: one scoped list with two instances
  whose zones are full URLs.
\<close>

definition zoneURL1 :: string where
  "zoneURL1 = ''https://www.googleapis.com/compute/v1/projects/proj/zones/us-central1-a''"

definition zoneURL2 :: string where
  "zoneURL2 = ''https://www.googleapis.com/compute/v1/projects/proj/zones/europe-west1-b''"

definition success_iterator :: InstancesIterator where
  "success_iterator =
     [Inr \<lparr>Key = ''zones'', Value = Some \<lparr>Instances =
        [\<lparr>pb_Name = Some ''instance-1'', pb_Zone = Some zoneURL1\<rparr>,
         \<lparr>pb_Name = Some ''instance-2'', pb_Zone = Some zoneURL2\<rparr>]\<rparr>\<rparr>]"

definition success_api :: "string \<Rightarrow> InstancesIterator" where
  "success_api pid = success_iterator"

text \<open>
  The first page as above, then a failure of \<open>Next\<close> with the error of
  \<open>TestFetchInstances_Error\<close>.
\<close>

definition failing_api :: "string \<Rightarrow> InstancesIterator" where
  "failing_api pid = success_iterator @ [Inl (errorString ''GCP API error'')]"

text \<open>
  A project without instances: a pair whose \<open>Value\<close> is nil and a scoped list
  without instances.
\<close>

definition empty_api :: "string \<Rightarrow> InstancesIterator" where
  "empty_api pid =
     [Inr \<lparr>Key = ''zones/us-central1-a'', Value = None\<rparr>,
      Inr \<lparr>Key = ''zones/europe-west1-b'', Value = Some \<lparr>Instances = []\<rparr>\<rparr>]"

text \<open>An instance whose \<open>Zone\<close> pointer is nil.\<close>

definition nil_zone_api :: "string \<Rightarrow> InstancesIterator" where
  "nil_zone_api pid =
     [Inr \<lparr>Key = ''zones/us-central1-a'', Value = Some \<lparr>Instances =
        [\<lparr>pb_Name = Some ''instance-1'', pb_Zone = None\<rparr>]\<rparr>\<rparr>]"

section \<open>Package tui\<close>

subsection \<open>Model, messages and commands\<close>

text \<open>
  \<open>Model\<close>. The spinner is a value of the library type \<open>spinner.Model\<close>, kept as
  the type parameter \<open>'s\<close>. \<open>cursor\<close> is a Go \<open>int\<close>: the code increments it only
  below \<open>len(m.vms) - 1\<close> and decrements it only above 0, so it cannot overflow and is
  an unbounded \<open>int\<close> here. \<open>err\<close> is \<open>None\<close> for nil.
\<close>

record 's Model =
  gcpClient :: Client
  projectID :: string
  vms :: "Instance list"
  cursor :: int
  loading :: bool
  spinner :: 's
  err :: "error option"

text \<open>
  \<open>tea.Msg\<close> as far as the type switch of \<open>Update\<close> tells messages apart: a key
  message (given by its \<open>String()\<close>), \<open>vmsMsg\<close>, \<open>errMsg{err}\<close> (given by the
  wrapped error), \<open>spinner.TickMsg\<close>, and any other message.
\<close>

datatype Msg =
    KeyMsg string
  | VmsMsg "Instance list"
  | ErrMsg error
  | TickMsg
  | OtherMsg

text \<open>
  \<open>tea.Cmd\<close>: nil, \<open>tea.Quit\<close>, \<open>tea.ExecProcess\<close> of an external command (its
  argument vector), the method value \<open>m.fetchVmsCmd\<close>, a command of the spinner
  library (\<open>m.spinner.Tick\<close> or what \<open>m.spinner.Update\<close> returns), and \<open>tea.Batch\<close>.
\<close>

datatype Cmd =
    CmdNil
  | Quit
  | ExecProcess "string list"
  | FetchVmsCmd
  | SpinnerCmd
  | Batch "Cmd list"

subsection \<open>\<open>NewModel\<close>, \<open>Init\<close>, \<open>fetchVmsCmd\<close>\<close>

text \<open>
  \<open>NewModel\<close>: \<open>s\<close> is the spinner that \<open>spinner.New()\<close> with \<open>spinner.Dot\<close> gives;
  the fields the composite literal leaves out have their zero values.
\<close>

definition NewModel :: "'s \<Rightarrow> Client \<Rightarrow> string \<Rightarrow> 's Model" where
  "NewModel s client pid =
     \<lparr>gcpClient = client, projectID = pid, vms = [], cursor = 0,
      loading = True, spinner = s, err = None\<rparr>"

definition Init :: "'s Model \<Rightarrow> Cmd" where
  "Init m = Batch [SpinnerCmd, FetchVmsCmd]"

definition fetchVmsCmd :: "'s Model \<Rightarrow> panic + Msg" where
  "fetchVmsCmd m =
     (case FetchInstances (gcpClient m) (projectID m) of
        Inl p \<Rightarrow> Inl p
      | Inr (vs, e) \<Rightarrow>
          (case e of Some e' \<Rightarrow> Inr (ErrMsg e') | None \<Rightarrow> Inr (VmsMsg vs)))"

subsection \<open>\<open>Model.Update\<close>\<close>

text \<open>Indexing a slice, \<open>xs[i]\<close>: Go panics when the index is out of range.\<close>

definition index :: "'a list \<Rightarrow> int \<Rightarrow> panic + 'a" where
  "index xs i = (if 0 \<le> i \<and> i < int (length xs) then Inr (xs ! nat i) else Inl IndexOutOfRange)"

text \<open>\<open>exec.Command("gcloud", "compute", "ssh", vm.Name, "--zone", vm.Zone, "--project", m.projectID)\<close>.\<close>

definition ssh_command :: "Instance \<Rightarrow> string \<Rightarrow> string list" where
  "ssh_command vm pid =
     [''gcloud'', ''compute'', ''ssh'', Name vm, ''--zone'', Zone vm, ''--project'', pid]"

text \<open>
  \<open>Update\<close>. \<open>spinner_Update\<close> is the new spinner that the library's
  \<open>m.spinner.Update(msg)\<close> returns. The result is the new model and the command,
  or a panic.
\<close>

definition Update :: "('s \<Rightarrow> 's) \<Rightarrow> 's Model \<Rightarrow> Msg \<Rightarrow> panic + ('s Model \<times> Cmd)" where
  "Update spinner_Update m msg =
     (case msg of
        KeyMsg k \<Rightarrow>
          if k = ''ctrl+c'' \<or> k = ''q'' then Inr (m, Quit)
          else if k = ''up'' \<or> k = ''k'' then
            Inr (if cursor m > 0 then m\<lparr>cursor := cursor m - 1\<rparr> else m, CmdNil)
          else if k = ''down'' \<or> k = ''j'' then
            Inr (if cursor m < int (length (vms m)) - 1 then m\<lparr>cursor := cursor m + 1\<rparr> else m,
                 CmdNil)
          else if k = ''enter'' then
            (if length (vms m) = 0 then Inr (m, CmdNil)
             else (case index (vms m) (cursor m) of
                     Inl p \<Rightarrow> Inl p
                   | Inr vm \<Rightarrow> Inr (m, ExecProcess (ssh_command vm (projectID m)))))
          else Inr (m, CmdNil)
      | VmsMsg v \<Rightarrow> Inr (m\<lparr>vms := v, loading := False\<rparr>, CmdNil)
      | ErrMsg e \<Rightarrow> Inr (m\<lparr>err := Some (errMsg e), loading := False\<rparr>, CmdNil)
      | TickMsg \<Rightarrow> Inr (m\<lparr>spinner := spinner_Update (spinner m)\<rparr>, SpinnerCmd)
      | OtherMsg \<Rightarrow> Inr (m, CmdNil))"

subsection \<open>The phase of a model\<close>

text \<open>
  The model has no phase field. \<open>View\<close> tells the three phases apart, in this order:
  the error view when \<open>m.err != nil\<close>, the loading view when \<open>m.loading\<close>, the
  list otherwise.
\<close>

datatype Phase = Loading | Ready | Failed

definition phase :: "'s Model \<Rightarrow> Phase" where
  "phase m = (if err m \<noteq> None then Failed else if loading m then Loading else Ready)"

subsection \<open>Runs of the program\<close>

text \<open>
  The event loop hands the messages to \<open>Update\<close> one after the other, each on the
  model that the last call returned, until a call panics. The commands are the
  runtime's business and are dropped here; \<open>tea.Quit\<close> ends the loop once the
  runtime has run it, so the models of the program are among the models that \<open>run\<close>
  reaches.
\<close>

fun run :: "('s \<Rightarrow> 's) \<Rightarrow> 's Model \<Rightarrow> Msg list \<Rightarrow> panic + 's Model" where
  "run su m [] = Inr m"
| "run su m (msg # msgs) =
     (case Update su m msg of
        Inl p \<Rightarrow> Inl p
      | Inr (m', c) \<Rightarrow> run su m' msgs)"

text \<open>Whether a command holds \<open>fetchVmsCmd\<close>, by itself or in a batch.\<close>

fun issues_fetch :: "Cmd \<Rightarrow> bool" where
  "issues_fetch FetchVmsCmd = True"
| "issues_fetch (Batch cs) = (\<exists>c \<in> set cs. issues_fetch c)"
| "issues_fetch c = False"

text \<open>
  The fetch results among the messages. \<open>Init\<close> issues \<open>fetchVmsCmd\<close> once and
  \<open>Update\<close> never returns it, so the messages of one run of the program hold at
  most one fetch result: that is \<open>one_fetch\<close>. \<open>Update\<close> itself does not check it.
\<close>

fun is_fetch_result :: "Msg \<Rightarrow> bool" where
  "is_fetch_result (VmsMsg v) = True"
| "is_fetch_result (ErrMsg e) = True"
| "is_fetch_result m = False"

definition fetch_results :: "Msg list \<Rightarrow> Msg list" where
  "fetch_results msgs = filter is_fetch_result msgs"

definition one_fetch :: "Msg list \<Rightarrow> bool" where
  "one_fetch msgs = (length (fetch_results msgs) \<le> 1)"

text \<open>Whether a key is one of the two that quit.\<close>

definition is_quit_key :: "string \<Rightarrow> bool" where
  "is_quit_key k = (k = ''ctrl+c'' \<or> k = ''q'')"

text \<open>The two records of the scenarios, and a client for them.\<close>

definition vm1 :: Instance where
  "vm1 = \<lparr>Name = ''vm-1'', Zone = ''us-central1-a''\<rparr>"

definition vm2 :: Instance where
  "vm2 = \<lparr>Name = ''vm-2'', Zone = ''europe-west1-b''\<rparr>"

definition test_client :: Client where
  "test_client = \<lparr>api = success_api\<rparr>"

definition test_model :: "unit Model" where
  "test_model = NewModel () test_client ''test-project''"

text \<open>
  The cursor invariant, and what else holds of every model a run reaches: while
  loading there is neither an inventory nor an error, and a model with an error
  has no inventory.
\<close>

definition cursor_ok :: "'s Model \<Rightarrow> bool" where
  "cursor_ok m =
     (if vms m = [] then cursor m = 0
      else 0 \<le> cursor m \<and> cursor m < int (length (vms m)))"

definition model_ok :: "'s Model \<Rightarrow> bool" where
  "model_ok m =
     (cursor_ok m \<and> (loading m \<longrightarrow> vms m = [] \<and> err m = None) \<and> (err m \<noteq> None \<longrightarrow> vms m = []))"

text \<open>What holds of every model that is still loading, whatever the messages were.\<close>

definition loading_ok :: "'s Model \<Rightarrow> bool" where
  "loading_ok m = (loading m \<longrightarrow> cursor m = 0 \<and> vms m = [] \<and> err m = None)"

text \<open>
  Models of the scenarios: the two records with the cursor on the second, an empty
  inventory, one record, and the failure of the mock server test.
\<close>

definition ready_model :: "unit Model" where
  "ready_model = test_model\<lparr>vms := [vm1, vm2], loading := False, cursor := 1\<rparr>"

definition empty_ready_model :: "unit Model" where
  "empty_ready_model = test_model\<lparr>vms := [], loading := False\<rparr>"

definition one_item_model :: "unit Model" where
  "one_item_model = test_model\<lparr>vms := [vm1], loading := False\<rparr>"

definition failed_model :: "unit Model" where
  "failed_model =
     test_model\<lparr>err := Some (errMsg (errorString ''internal server error'')), loading := False\<rparr>"

section \<open>Properties of \<open>FetchInstances\<close>\<close>

subsection \<open>The loop as a function of what the iterator holds\<close>

lemma those_append:
  "those (xs @ ys) = (case those xs of None \<Rightarrow> None | Some a \<Rightarrow> map_option ((@) a) (those ys))"
  by (induction xs) (cases "those ys"; auto split: option.splits)+

lemma errors_Is_refl: "errors_Is e e"
  by (cases e) auto

lemma those_eq_Some: "those xs = Some ys \<longleftrightarrow> xs = map Some ys"
  by (induction xs arbitrary: ys) (auto split: option.splits)

lemma those_record_of_None:
  "those (map record_of is) = None \<longleftrightarrow> (\<exists>i \<in> set is. \<not> has_name_and_zone i)"
  by (induction "is") (auto simp: record_of_def has_name_and_zone_def split: option.splits)

lemma append_instances_eq:
  "append_instances is acc =
     (case those (map record_of is) of None \<Rightarrow> Inl NilDereference | Some rs \<Rightarrow> Inr (acc @ rs))"
  by (induction "is" arbitrary: acc) (auto simp: record_of_def split: option.splits)

lemma FetchInstances_loop_eq:
  "FetchInstances_loop it acc =
     (case those (map record_of (source_instances it)) of
        None \<Rightarrow> Inl NilDereference
      | Some rs \<Rightarrow>
          (case first_error it of
             None \<Rightarrow> Inr (acc @ rs, None)
           | Some e \<Rightarrow> Inr ([], Some (fmt_Errorf_w ''failed to iterate over instances: '' e))))"
proof (induction it acc rule: FetchInstances_loop.induct)
  case (1 acc)
  then show ?case by (simp add: source_instances_def)
next
  case (2 e it acc)
  then show ?case by (simp add: source_instances_def)
next
  case (3 pair it acc)
  then show ?case
    by (auto simp: source_instances_def pair_instances_def append_instances_eq those_append
             split: option.splits sum.splits)
qed

lemma path_Base_segment:
  assumes "seg \<noteq> []" "CHR ''/'' \<notin> set seg" "pre = [] \<or> last pre = CHR ''/''"
  shows "path_Base (pre @ seg) = seg"
proof -
  have 1: "strip_trailing_slashes (pre @ seg) = pre @ seg"
    using assms(1,2) unfolding strip_trailing_slashes_def
    by (cases seg rule: rev_cases) auto
  have 2: "after_last_slash (pre @ seg) = seg"
  proof -
    have "takeWhile (\<lambda>c. c \<noteq> CHR ''/'') (rev pre) = []"
      using assms(3) by (cases pre rule: rev_cases) auto
    moreover have "takeWhile (\<lambda>c. c \<noteq> CHR ''/'') (rev seg @ rev pre) =
                     rev seg @ takeWhile (\<lambda>c. c \<noteq> CHR ''/'') (rev pre)"
      using assms(2) by (intro takeWhile_append2) auto
    ultimately show ?thesis
      by (simp add: after_last_slash_def)
  qed
  show ?thesis using assms(1) by (simp add: path_Base_def 1 2 Let_def)
qed

subsection \<open>Atomic success or failure\<close>

text \<open>
  C7: the fetch is atomic. If the iteration meets a failing \<open>Next\<close>, after pages
  whose instances all have a name and a zone, \<open>FetchInstances\<close> returns the nil
  slice and the error \<open>failed to iterate over instances: ...\<close> that wraps the
  cause: the records of the earlier pages are dropped. Whenever it returns an
  error, the slice is nil and the error wraps the first failure of the iteration.
  Whenever it returns no error, no \<open>Next\<close> failed and the slice holds one record
  for each instance of every page, in the order of the iteration: never a
  truncated inventory. And when no \<open>Next\<close> fails it does return such a result.
\<close>

theorem FetchInstances_atomic:
  "(first_error (api c pid) = Some cause \<and>
      (\<forall>i \<in> set (source_instances (api c pid)). has_name_and_zone i) \<longrightarrow>
        FetchInstances c pid =
          Inr ([], Some (wrapError (''failed to iterate over instances: '' @ Error cause) cause)))
   \<and> (FetchInstances c pid = Inr (r, Some e) \<longrightarrow>
        r = [] \<and>
        (\<exists>cause. first_error (api c pid) = Some cause \<and>
           e = wrapError (''failed to iterate over instances: '' @ Error cause) cause \<and>
           Unwrap e = Some cause \<and> errors_Is e cause))
   \<and> (FetchInstances c pid = Inr (r, None) \<longrightarrow>
        first_error (api c pid) = None \<and>
        map Some r = map record_of (source_instances (api c pid)))
   \<and> (first_error (api c pid) = None \<and>
      (\<forall>i \<in> set (source_instances (api c pid)). has_name_and_zone i) \<longrightarrow>
        (\<exists>r. FetchInstances c pid = Inr (r, None) \<and>
           map Some r = map record_of (source_instances (api c pid))))"
proof -
  let ?it = "api c pid"
  show ?thesis
  proof (cases "those (map record_of (source_instances ?it))")
    case None
    then show ?thesis
      using those_record_of_None [of "source_instances ?it"]
      by (simp add: FetchInstances_def FetchInstances_loop_eq)
  next
    case (Some rs)
    then have "map record_of (source_instances ?it) = map Some rs"
      by (simp add: those_eq_Some)
    with Some show ?thesis
      by (cases "first_error ?it")
         (auto simp: FetchInstances_def FetchInstances_loop_eq fmt_Errorf_w_def errors_Is_refl)
  qed
qed

theorem FetchInstances_atomic_witness:
  "first_error (api \<lparr>api = failing_api\<rparr> ''test-project'') = Some (errorString ''GCP API error'') \<and>
   list_all has_name_and_zone (source_instances (api \<lparr>api = failing_api\<rparr> ''test-project'')) \<and>
   FetchInstances \<lparr>api = failing_api\<rparr> ''test-project'' =
     Inr ([], Some (wrapError ''failed to iterate over instances: GCP API error''
                      (errorString ''GCP API error'')))"
proof -
  have 1: "first_error (api \<lparr>api = failing_api\<rparr> ''test-project'') = Some (errorString ''GCP API error'')"
    by (simp add: failing_api_def success_iterator_def)
  have 2: "list_all has_name_and_zone (source_instances (api \<lparr>api = failing_api\<rparr> ''test-project''))"
    by (simp add: failing_api_def success_iterator_def source_instances_def pair_instances_def
          has_name_and_zone_def)
  then have 3: "\<forall>i \<in> set (source_instances (api \<lparr>api = failing_api\<rparr> ''test-project'')). has_name_and_zone i"
    by (simp only: list_all_iff)
  show ?thesis
    using 1 2 3 FetchInstances_atomic [of "\<lparr>api = failing_api\<rparr>" "''test-project''"
        "errorString ''GCP API error''" "[]" "errorString ''x''"]
    by simp
qed

subsection \<open>Zone normalization\<close>

text \<open>
  C8: when \<open>FetchInstances\<close> returns an inventory, its k-th record comes from the
  k-th instance of the source: \<open>Name\<close> is the name of that instance and \<open>Zone\<close> is
  \<open>path.Base\<close> of its zone. When the zone is a path that ends in a slash and a
  non-empty last segment, \<open>Zone\<close> is that segment alone; when the zone is already
  a short name, \<open>Zone\<close> is that name.
\<close>

theorem zone_normalization:
  assumes "FetchInstances c pid = Inr (r, None)"
  shows "length r = length (source_instances (api c pid)) \<and>
         (\<forall>k < length r.
            pb_Name (source_instances (api c pid) ! k) = Some (Name (r ! k)) \<and>
            (\<exists>z. pb_Zone (source_instances (api c pid) ! k) = Some z \<and> Zone (r ! k) = path_Base z) \<and>
            (\<forall>pre seg. pb_Zone (source_instances (api c pid) ! k) = Some (pre @ ''/'' @ seg) \<and>
                 seg \<noteq> [] \<and> CHR ''/'' \<notin> set seg \<longrightarrow> Zone (r ! k) = seg) \<and>
            (\<forall>seg. pb_Zone (source_instances (api c pid) ! k) = Some seg \<and>
                 seg \<noteq> [] \<and> CHR ''/'' \<notin> set seg \<longrightarrow> Zone (r ! k) = seg))"
proof -
  let ?src = "source_instances (api c pid)"
  have "those (map record_of ?src) = Some r"
    using assms
    by (auto simp: FetchInstances_def FetchInstances_loop_eq split: option.splits)
  then have eq: "map record_of ?src = map Some r"
    by (simp add: those_eq_Some)
  then have len: "length r = length ?src"
    by (metis length_map)
  have rec: "record_of (?src ! k) = Some (r ! k)" if "k < length r" for k
    using that eq len by (metis nth_map)
  have base: "path_Base (pre @ ''/'' @ seg) = seg"
    if "seg \<noteq> []" "CHR ''/'' \<notin> set seg" for pre seg
    using path_Base_segment [of seg "pre @ ''/''"] that by simp
  have short: "path_Base seg = seg" if "seg \<noteq> []" "CHR ''/'' \<notin> set seg" for seg
    using path_Base_segment [of seg "[]"] that by simp
  have "pb_Name (?src ! k) = Some (Name (r ! k)) \<and>
        (\<exists>z. pb_Zone (?src ! k) = Some z \<and> Zone (r ! k) = path_Base z)" if "k < length r" for k
    using rec [OF that] by (auto simp: record_of_def split: option.splits dest: sym)
  with len base short show ?thesis
    by (metis option.inject)
qed

theorem zone_normalization_witness:
  "FetchInstances \<lparr>api = success_api\<rparr> ''test-project'' =
     Inr ([\<lparr>Name = ''instance-1'', Zone = ''us-central1-a''\<rparr>,
           \<lparr>Name = ''instance-2'', Zone = ''europe-west1-b''\<rparr>], None) \<and>
   Zone ([\<lparr>Name = ''instance-1'', Zone = ''us-central1-a''\<rparr>,
           \<lparr>Name = ''instance-2'', Zone = ''europe-west1-b''\<rparr>] ! 0) = path_Base zoneURL1"
proof -
  have 1: "FetchInstances \<lparr>api = success_api\<rparr> ''test-project'' =
     Inr ([\<lparr>Name = ''instance-1'', Zone = ''us-central1-a''\<rparr>,
           \<lparr>Name = ''instance-2'', Zone = ''europe-west1-b''\<rparr>], None)"
    by (simp add: FetchInstances_def success_api_def success_iterator_def zoneURL1_def zoneURL2_def
          path_Base_def strip_trailing_slashes_def after_last_slash_def)
  have 2: "source_instances (api \<lparr>api = success_api\<rparr> ''test-project'') ! 0 =
             \<lparr>pb_Name = Some ''instance-1'', pb_Zone = Some zoneURL1\<rparr>"
    by (simp add: success_api_def success_iterator_def source_instances_def pair_instances_def)
  show ?thesis
    using 1 2 zone_normalization [OF 1] by auto
qed

subsection \<open>Totality\<close>

text \<open>
  The claim C10 as stated fails: for a page with an instance whose \<open>Zone\<close> pointer
  is nil, line 57 dereferences nil and \<open>FetchInstances\<close> panics.
\<close>

theorem FetchInstances_nil_zone_panics:
  "FetchInstances \<lparr>api = nil_zone_api\<rparr> ''test-project'' = Inl NilDereference"
  by (simp add: FetchInstances_def nil_zone_api_def)

text \<open>
  C10, amended: \<open>FetchInstances\<close> returns (a result or an error, no panic) for all
  page contents whose instances each have a name and a zone. A pair whose
  \<open>Value\<close> is nil or whose scoped list has no instances is skipped: the loop goes
  on with the rest of the iterator and the same accumulator. A project with no
  instances at all, and no failing \<open>Next\<close>, gives the nil slice and no error.
\<close>

theorem FetchInstances_total:
  "((\<forall>i \<in> set (source_instances (api c pid)). has_name_and_zone i) \<longrightarrow>
      (\<exists>r e. FetchInstances c pid = Inr (r, e)))
   \<and> (Value pair = None \<or> (\<exists>v. Value pair = Some v \<and> Instances v = []) \<longrightarrow>
        FetchInstances_loop (Inr pair # it) acc = FetchInstances_loop it acc)
   \<and> (first_error (api c pid) = None \<and> source_instances (api c pid) = [] \<longrightarrow>
        FetchInstances c pid = Inr ([], None))"
proof (intro conjI impI)
  assume "\<forall>i \<in> set (source_instances (api c pid)). has_name_and_zone i"
  then have "those (map record_of (source_instances (api c pid))) \<noteq> None"
    by (simp add: those_record_of_None)
  then show "\<exists>r e. FetchInstances c pid = Inr (r, e)"
    by (auto simp: FetchInstances_def FetchInstances_loop_eq split: option.splits)
next
  assume "Value pair = None \<or> (\<exists>v. Value pair = Some v \<and> Instances v = [])"
  then show "FetchInstances_loop (Inr pair # it) acc = FetchInstances_loop it acc"
    by auto
next
  assume "first_error (api c pid) = None \<and> source_instances (api c pid) = []"
  then show "FetchInstances c pid = Inr ([], None)"
    by (simp add: FetchInstances_def FetchInstances_loop_eq)
qed

theorem FetchInstances_total_witness:
  "first_error (api \<lparr>api = empty_api\<rparr> ''test-project'') = None \<and>
   source_instances (api \<lparr>api = empty_api\<rparr> ''test-project'') = [] \<and>
   FetchInstances \<lparr>api = empty_api\<rparr> ''test-project'' = Inr ([], None)"
proof -
  have 1: "first_error (api \<lparr>api = empty_api\<rparr> ''test-project'') = None"
    by (simp add: empty_api_def)
  have 2: "source_instances (api \<lparr>api = empty_api\<rparr> ''test-project'') = []"
    by (simp add: empty_api_def source_instances_def pair_instances_def)
  show ?thesis
    using 1 2 FetchInstances_total [of "\<lparr>api = empty_api\<rparr>" "''test-project''"]
    by simp
qed

section \<open>Properties of \<open>Update\<close>\<close>

subsection \<open>\<open>Update\<close> message by message\<close>

lemma Update_quit: "is_quit_key k \<Longrightarrow> Update su m (KeyMsg k) = Inr (m, Quit)"
  by (auto simp: Update_def is_quit_key_def)

lemma Update_up:
  "k = ''up'' \<or> k = ''k'' \<Longrightarrow>
   Update su m (KeyMsg k) = Inr (if cursor m > 0 then m\<lparr>cursor := cursor m - 1\<rparr> else m, CmdNil)"
  by (auto simp: Update_def)

lemma Update_down:
  "k = ''down'' \<or> k = ''j'' \<Longrightarrow>
   Update su m (KeyMsg k) =
     Inr (if cursor m < int (length (vms m)) - 1 then m\<lparr>cursor := cursor m + 1\<rparr> else m, CmdNil)"
  by (auto simp: Update_def)

lemma Update_enter:
  "Update su m (KeyMsg ''enter'') =
     (if vms m = [] then Inr (m, CmdNil)
      else if 0 \<le> cursor m \<and> cursor m < int (length (vms m))
        then Inr (m, ExecProcess (ssh_command (vms m ! nat (cursor m)) (projectID m)))
        else Inl IndexOutOfRange)"
  by (simp add: Update_def index_def)

lemma Update_other_key:
  "\<not> is_quit_key k \<Longrightarrow> k \<noteq> ''up'' \<Longrightarrow> k \<noteq> ''k'' \<Longrightarrow> k \<noteq> ''down'' \<Longrightarrow> k \<noteq> ''j'' \<Longrightarrow>
   k \<noteq> ''enter'' \<Longrightarrow> Update su m (KeyMsg k) = Inr (m, CmdNil)"
  by (simp add: Update_def is_quit_key_def)

lemma Update_VmsMsg: "Update su m (VmsMsg v) = Inr (m\<lparr>vms := v, loading := False\<rparr>, CmdNil)"
  by (simp add: Update_def)

lemma Update_ErrMsg:
  "Update su m (ErrMsg e) = Inr (m\<lparr>err := Some (errMsg e), loading := False\<rparr>, CmdNil)"
  by (simp add: Update_def)

lemma Update_TickMsg: "Update su m TickMsg = Inr (m\<lparr>spinner := su (spinner m)\<rparr>, SpinnerCmd)"
  by (simp add: Update_def)

lemma Update_OtherMsg: "Update su m OtherMsg = Inr (m, CmdNil)"
  by (simp add: Update_def)

text \<open>The six things a key message can do.\<close>

lemma Update_KeyMsg_cases:
  obtains "Update su m (KeyMsg k) = Inr (m, Quit)"
  | "Update su m (KeyMsg k) = Inr (m, CmdNil)"
  | "0 < cursor m" "Update su m (KeyMsg k) = Inr (m\<lparr>cursor := cursor m - 1\<rparr>, CmdNil)"
  | "cursor m < int (length (vms m)) - 1"
    "Update su m (KeyMsg k) = Inr (m\<lparr>cursor := cursor m + 1\<rparr>, CmdNil)"
  | "vms m \<noteq> []" "0 \<le> cursor m" "cursor m < int (length (vms m))"
    "Update su m (KeyMsg k) = Inr (m, ExecProcess (ssh_command (vms m ! nat (cursor m)) (projectID m)))"
  | "vms m \<noteq> []" "\<not> (0 \<le> cursor m \<and> cursor m < int (length (vms m)))"
    "Update su m (KeyMsg k) = Inl IndexOutOfRange"
proof -
  consider "is_quit_key k" | "k = ''up'' \<or> k = ''k''" | "k = ''down'' \<or> k = ''j''" | "k = ''enter''"
    | "\<not> is_quit_key k" "k \<noteq> ''up''" "k \<noteq> ''k''" "k \<noteq> ''down''" "k \<noteq> ''j''" "k \<noteq> ''enter''"
    by blast
  then show ?thesis
  proof cases
    case 1
    then show ?thesis using that(1) Update_quit by blast
  next
    case 2
    then show ?thesis using that(2,3) Update_up [of k su m] by (cases "0 < cursor m") auto
  next
    case 3
    then show ?thesis using that(2,4) Update_down [of k su m]
      by (cases "cursor m < int (length (vms m)) - 1") auto
  next
    case 4
    then show ?thesis using that(2,5,6) Update_enter [of su m]
      by (cases "vms m = []"; cases "0 \<le> cursor m \<and> cursor m < int (length (vms m))") auto
  next
    case 5
    then show ?thesis using that(2) Update_other_key by blast
  qed
qed

subsection \<open>What a run preserves\<close>

text \<open>
  A fetch result that reaches a model that is still loading, and any other message,
  keep \<open>model_ok\<close>; in a model with \<open>cursor_ok\<close> no message panics.
\<close>

lemma Update_returns:
  assumes "cursor_ok m"
  shows "\<exists>m' c. Update su m msg = Inr (m', c)"
proof (cases msg)
  case (KeyMsg k)
  show ?thesis
    unfolding KeyMsg
    using assms by (cases rule: Update_KeyMsg_cases [of su m k]) (auto simp: cursor_ok_def)
qed (simp_all add: Update_VmsMsg Update_ErrMsg Update_TickMsg Update_OtherMsg)

lemma Update_model_ok:
  assumes "model_ok m" "is_fetch_result msg \<longrightarrow> loading m" "Update su m msg = Inr (m', c)"
  shows "model_ok m'"
proof (cases msg)
  case (KeyMsg k)
  show ?thesis
    using assms unfolding KeyMsg
    by (cases rule: Update_KeyMsg_cases [of su m k]) (auto simp: model_ok_def cursor_ok_def)
next
  case (VmsMsg v)
  then show ?thesis
    using assms by (auto simp: Update_VmsMsg model_ok_def cursor_ok_def)
next
  case (ErrMsg e)
  then show ?thesis
    using assms by (auto simp: Update_ErrMsg model_ok_def cursor_ok_def)
next
  case TickMsg
  then show ?thesis
    using assms by (auto simp: Update_TickMsg model_ok_def cursor_ok_def)
next
  case OtherMsg
  then show ?thesis
    using assms by (auto simp: Update_OtherMsg model_ok_def cursor_ok_def)
qed

lemma Update_loading:
  assumes "Update su m msg = Inr (m', c)"
  shows "loading m' = (loading m \<and> \<not> is_fetch_result msg)"
proof (cases msg)
  case (KeyMsg k)
  show ?thesis
    using assms unfolding KeyMsg
    by (cases rule: Update_KeyMsg_cases [of su m k]) auto
next
  case (VmsMsg v)
  then show ?thesis
    using assms by (auto simp: Update_VmsMsg)
next
  case (ErrMsg e)
  then show ?thesis
    using assms by (auto simp: Update_ErrMsg)
next
  case TickMsg
  then show ?thesis
    using assms by (auto simp: Update_TickMsg)
next
  case OtherMsg
  then show ?thesis
    using assms by (auto simp: Update_OtherMsg)
qed

lemma one_fetch_Cons:
  "one_fetch (msg # msgs) =
     (if is_fetch_result msg then fetch_results msgs = [] else one_fetch msgs)"
  by (simp add: one_fetch_def fetch_results_def)

lemma fetch_results_Cons_Nil:
  "fetch_results (msg # msgs) = [] \<longleftrightarrow> \<not> is_fetch_result msg \<and> fetch_results msgs = []"
  by (simp add: fetch_results_def)

lemma run_model_ok:
  assumes "model_ok m" "if loading m then one_fetch msgs else fetch_results msgs = []"
  shows "\<exists>m'. run su m msgs = Inr m' \<and> model_ok m'"
  using assms
proof (induction msgs arbitrary: m)
  case Nil
  then show ?case by simp
next
  case (Cons msg msgs)
  from Cons.prems(1) obtain m1 c where upd: "Update su m msg = Inr (m1, c)"
    using Update_returns [of m su msg] by (auto simp: model_ok_def)
  have fr: "is_fetch_result msg \<longrightarrow> loading m"
    using Cons.prems(2) by (auto simp: fetch_results_Cons_Nil split: if_splits)
  have ok1: "model_ok m1"
    using Update_model_ok [OF Cons.prems(1) fr upd] .
  have rest: "if loading m1 then one_fetch msgs else fetch_results msgs = []"
    using Cons.prems(2) Update_loading [OF upd]
    by (auto simp: one_fetch_Cons fetch_results_Cons_Nil split: if_splits)
  from Cons.IH [OF ok1 rest] upd show ?case by simp
qed

lemma NewModel_ok: "model_ok (NewModel s c pid)"
  by (simp add: model_ok_def cursor_ok_def NewModel_def)

lemma reachable_ok:
  assumes "one_fetch msgs"
  shows "\<exists>m. run su (NewModel s c pid) msgs = Inr m \<and> model_ok m"
  using run_model_ok [OF NewModel_ok, of s c pid msgs su] assms
  by (simp add: NewModel_def)

text \<open>\<open>loading_ok\<close> holds along every run, whatever the messages are.\<close>

lemma Update_loading_ok:
  assumes "loading_ok m" "Update su m msg = Inr (m', c)"
  shows "loading_ok m'"
proof (cases msg)
  case (KeyMsg k)
  show ?thesis
    using assms unfolding KeyMsg
    by (cases rule: Update_KeyMsg_cases [of su m k]) (auto simp: loading_ok_def)
next
  case (VmsMsg v)
  then show ?thesis
    using assms by (auto simp: Update_VmsMsg loading_ok_def)
next
  case (ErrMsg e)
  then show ?thesis
    using assms by (auto simp: Update_ErrMsg loading_ok_def)
next
  case TickMsg
  then show ?thesis
    using assms by (auto simp: Update_TickMsg loading_ok_def)
next
  case OtherMsg
  then show ?thesis
    using assms by (auto simp: Update_OtherMsg loading_ok_def)
qed

lemma run_loading_ok:
  assumes "loading_ok m" "run su m msgs = Inr m'"
  shows "loading_ok m'"
  using assms
proof (induction msgs arbitrary: m)
  case Nil
  then show ?case by simp
next
  case (Cons msg msgs)
  then show ?case
    by (auto split: sum.splits dest: Update_loading_ok)
qed

lemma NewModel_loading_ok: "loading_ok (NewModel s c pid)"
  by (simp add: loading_ok_def NewModel_def)

lemma run_keys_unchanged:
  assumes "\<forall>k \<in> set ks. Update su m (KeyMsg k) = Inr (m, CmdNil)"
  shows "run su m (map KeyMsg ks) = Inr m"
  using assms by (induction ks) auto

lemma run_replicate_unchanged:
  assumes "Update su m msg = Inr (m, c)"
  shows "run su m (replicate n msg) = Inr m"
  using assms by (induction n) auto

lemma Update_no_fetch:
  assumes "Update su m msg = Inr (m', c)"
  shows "\<not> issues_fetch c"
proof (cases msg)
  case (KeyMsg k)
  show ?thesis
    using assms unfolding KeyMsg
    by (cases rule: Update_KeyMsg_cases [of su m k]) auto
next
  case (VmsMsg v)
  then show ?thesis using assms by (auto simp: Update_VmsMsg)
next
  case (ErrMsg e)
  then show ?thesis using assms by (auto simp: Update_ErrMsg)
next
  case TickMsg
  then show ?thesis using assms by (auto simp: Update_TickMsg)
next
  case OtherMsg
  then show ?thesis using assms by (auto simp: Update_OtherMsg)
qed

lemma Init_issues_fetch: "issues_fetch (Init m)"
  by (simp add: Init_def)

lemma Update_key_empty:
  assumes "vms m = []" "cursor m = 0" "\<not> is_quit_key k"
  shows "Update su m (KeyMsg k) = Inr (m, CmdNil)"
proof -
  consider "k = ''up'' \<or> k = ''k''" | "k = ''down'' \<or> k = ''j''" | "k = ''enter''"
    | "k \<noteq> ''up''" "k \<noteq> ''k''" "k \<noteq> ''down''" "k \<noteq> ''j''" "k \<noteq> ''enter''"
    by blast
  then show ?thesis
  proof cases
    case 1
    then show ?thesis using assms(2) by (simp add: Update_up)
  next
    case 2
    then show ?thesis using assms(1,2) by (simp add: Update_down)
  next
    case 3
    then show ?thesis using assms(1) by (simp add: Update_enter)
  next
    case 4
    then show ?thesis using assms(3) by (simp add: Update_other_key)
  qed
qed

lemma run_scenario_A:
  "run id test_model [VmsMsg [vm1, vm2], KeyMsg ''down''] = Inr ready_model"
  by (simp add: Update_VmsMsg Update_down test_model_def NewModel_def ready_model_def)

subsection \<open>Confirmation\<close>

text \<open>
  C1: in every model that is \<open>Ready\<close> with a non-empty inventory and that a run
  of the program reaches, the cursor is an index of the inventory, and
  \<open>enter\<close> returns the model unchanged together with one command,
  \<open>tea.ExecProcess\<close> of \<open>gcloud compute ssh\<close> with the name and the zone of
  the record at the cursor, \<open>vms[cursor]\<close>, and the project of the model. In
  particular: after \<open>vmsMsg\<close> with the records vm-1 and vm-2 the model is \<open>Ready\<close>
  with cursor 0 and two records, \<open>down\<close> moves the cursor to 1, and \<open>enter\<close>
  then launches the session for vm-2 in europe-west1-b.
\<close>

theorem KeyConfirm_launches:
  "(one_fetch msgs \<and> run su (NewModel s c pid) msgs = Inr m \<and> phase m = Ready \<and> vms m \<noteq> [] \<longrightarrow>
      0 \<le> cursor m \<and> cursor m < int (length (vms m)) \<and>
      Update su m (KeyMsg ''enter'') =
        Inr (m, ExecProcess [''gcloud'', ''compute'', ''ssh'', Name (vms m ! nat (cursor m)),
                             ''--zone'', Zone (vms m ! nat (cursor m)),
                             ''--project'', projectID m]))
   \<and> (\<exists>m1 m2.
        run su (NewModel s c pid) [VmsMsg [vm1, vm2]] = Inr m1 \<and>
        phase m1 = Ready \<and> cursor m1 = 0 \<and> length (vms m1) = 2 \<and>
        Update su m1 (KeyMsg ''down'') = Inr (m2, CmdNil) \<and> cursor m2 = 1 \<and>
        Update su m2 (KeyMsg ''enter'') =
          Inr (m2, ExecProcess [''gcloud'', ''compute'', ''ssh'', ''vm-2'',
                                ''--zone'', ''europe-west1-b'', ''--project'', pid]))"
proof (intro conjI impI)
  assume a: "one_fetch msgs \<and> run su (NewModel s c pid) msgs = Inr m \<and> phase m = Ready \<and> vms m \<noteq> []"
  then have "model_ok m"
    using reachable_ok [of msgs su s c pid] by auto
  with a show "0 \<le> cursor m" "cursor m < int (length (vms m))"
    "Update su m (KeyMsg ''enter'') =
        Inr (m, ExecProcess [''gcloud'', ''compute'', ''ssh'', Name (vms m ! nat (cursor m)),
                             ''--zone'', Zone (vms m ! nat (cursor m)),
                             ''--project'', projectID m])"
    by (auto simp: model_ok_def cursor_ok_def Update_enter ssh_command_def)
next
  let ?m1 = "(NewModel s c pid)\<lparr>vms := [vm1, vm2], loading := False\<rparr>"
  let ?m2 = "?m1\<lparr>cursor := 1\<rparr>"
  have "run su (NewModel s c pid) [VmsMsg [vm1, vm2]] = Inr ?m1"
    by (simp add: Update_VmsMsg)
  moreover have "phase ?m1 = Ready" "cursor ?m1 = 0" "length (vms ?m1) = 2"
    by (simp_all add: phase_def NewModel_def)
  moreover have "Update su ?m1 (KeyMsg ''down'') = Inr (?m2, CmdNil)"
    by (simp add: Update_down NewModel_def)
  moreover have "Update su ?m2 (KeyMsg ''enter'') =
          Inr (?m2, ExecProcess [''gcloud'', ''compute'', ''ssh'', ''vm-2'',
                                ''--zone'', ''europe-west1-b'', ''--project'', pid])"
    by (simp add: Update_enter NewModel_def ssh_command_def vm2_def)
  ultimately show "\<exists>m1 m2.
        run su (NewModel s c pid) [VmsMsg [vm1, vm2]] = Inr m1 \<and>
        phase m1 = Ready \<and> cursor m1 = 0 \<and> length (vms m1) = 2 \<and>
        Update su m1 (KeyMsg ''down'') = Inr (m2, CmdNil) \<and> cursor m2 = 1 \<and>
        Update su m2 (KeyMsg ''enter'') =
          Inr (m2, ExecProcess [''gcloud'', ''compute'', ''ssh'', ''vm-2'',
                                ''--zone'', ''europe-west1-b'', ''--project'', pid])"
    by (intro exI [of _ ?m1] exI [of _ ?m2]) simp
qed

theorem KeyConfirm_launches_witness:
  "one_fetch [VmsMsg [vm1, vm2], KeyMsg ''down''] \<and>
   run id test_model [VmsMsg [vm1, vm2], KeyMsg ''down''] = Inr ready_model \<and>
   phase ready_model = Ready \<and> vms ready_model \<noteq> [] \<and> cursor ready_model = 1 \<and>
   Update id ready_model (KeyMsg ''enter'') =
     Inr (ready_model, ExecProcess [''gcloud'', ''compute'', ''ssh'', ''vm-2'',
                                    ''--zone'', ''europe-west1-b'', ''--project'', ''test-project''])"
proof -
  have 1: "one_fetch [VmsMsg [vm1, vm2], KeyMsg ''down'']"
    by (simp add: one_fetch_def fetch_results_def)
  have 2: "run id (NewModel () test_client ''test-project'') [VmsMsg [vm1, vm2], KeyMsg ''down'']
             = Inr ready_model"
    using run_scenario_A by (simp add: test_model_def)
  have 3: "phase ready_model = Ready" "vms ready_model \<noteq> []" "cursor ready_model = 1"
    "projectID ready_model = ''test-project''" "vms ready_model ! nat 1 = vm2"
    by (simp_all add: ready_model_def test_model_def NewModel_def phase_def)
  show ?thesis
    using 1 2 3 KeyConfirm_launches [of "[VmsMsg [vm1, vm2], KeyMsg ''down'']" id "()" test_client
        "''test-project''" ready_model]
    by (simp add: test_model_def ssh_command_def vm2_def)
qed

subsection \<open>The cursor invariant\<close>

text \<open>
  C2: every run of the program from the initial model, by key messages, ticks,
  other messages and the fetch result (\<open>Init\<close> issues the fetch once, so at most
  one fetch result), goes through without a panic and ends in a model where
  \<open>0 \<le> cursor < len(vms)\<close> when the inventory is non-empty and \<open>cursor = 0\<close>
  when it is empty. In such a model \<open>enter\<close> does not panic on \<open>m.vms[m.cursor]\<close>,
  and no other message panics either.
\<close>

theorem cursor_invariant:
  assumes "one_fetch msgs"
  shows "\<exists>m. run su (NewModel s c pid) msgs = Inr m \<and>
             (vms m \<noteq> [] \<longrightarrow> 0 \<le> cursor m \<and> cursor m < int (length (vms m))) \<and>
             (vms m = [] \<longrightarrow> cursor m = 0) \<and>
             (\<exists>cmd. Update su m (KeyMsg ''enter'') = Inr (m, cmd)) \<and>
             (\<forall>msg. \<exists>m' cmd. Update su m msg = Inr (m', cmd))"
proof -
  obtain m where m: "run su (NewModel s c pid) msgs = Inr m" "model_ok m"
    using reachable_ok [OF assms, of su s c pid] by blast
  then have "cursor_ok m" by (simp add: model_ok_def)
  then have "(vms m \<noteq> [] \<longrightarrow> 0 \<le> cursor m \<and> cursor m < int (length (vms m))) \<and>
             (vms m = [] \<longrightarrow> cursor m = 0) \<and>
             (\<exists>cmd. Update su m (KeyMsg ''enter'') = Inr (m, cmd))"
    by (auto simp: cursor_ok_def Update_enter)
  moreover have "\<forall>msg. \<exists>m' cmd. Update su m msg = Inr (m', cmd)"
    using Update_returns [OF \<open>cursor_ok m\<close>] by blast
  ultimately show ?thesis
    using m(1) by blast
qed

theorem cursor_invariant_witness:
  "one_fetch [VmsMsg [vm1, vm2], KeyMsg ''down'', KeyMsg ''down'', KeyMsg ''enter''] \<and>
   (\<exists>m. run id test_model [VmsMsg [vm1, vm2], KeyMsg ''down'', KeyMsg ''down'', KeyMsg ''enter'']
          = Inr m \<and>
        m = ready_model \<and> 0 \<le> cursor m \<and> cursor m < int (length (vms m)))"
proof -
  have 1: "one_fetch [VmsMsg [vm1, vm2], KeyMsg ''down'', KeyMsg ''down'', KeyMsg ''enter'']"
    by (simp add: one_fetch_def fetch_results_def)
  have 2: "run id (NewModel () test_client ''test-project'')
             [VmsMsg [vm1, vm2], KeyMsg ''down'', KeyMsg ''down'', KeyMsg ''enter''] = Inr ready_model"
    by (simp add: Update_VmsMsg Update_down Update_enter NewModel_def ready_model_def test_model_def)
  obtain m where m:
    "run id (NewModel () test_client ''test-project'')
       [VmsMsg [vm1, vm2], KeyMsg ''down'', KeyMsg ''down'', KeyMsg ''enter''] = Inr m"
    "vms m \<noteq> [] \<longrightarrow> 0 \<le> cursor m \<and> cursor m < int (length (vms m))"
    using cursor_invariant [OF 1, of id "()" test_client "''test-project''"] by blast
  from m(1) 2 have 3: "m = ready_model" by simp
  have "vms ready_model \<noteq> []"
    by (simp add: ready_model_def)
  with m(2) 3 have "0 \<le> cursor m \<and> cursor m < int (length (vms m))" by simp
  with 1 2 3 show ?thesis
    by (simp add: test_model_def)
qed

subsection \<open>Fetch success\<close>

text \<open>
  C3: for an inventory \<open>I\<close> with at least one record, \<open>vmsMsg(I)\<close> on any model
  that a run reaches and that is still in phase \<open>Loading\<close> gives a model in phase
  \<open>Ready\<close> with inventory \<open>I\<close> and cursor 0.
\<close>

theorem FetchSucceeded_from_Loading:
  assumes "run su (NewModel s c pid) msgs = Inr m" "phase m = Loading" "1 \<le> length I"
  shows "\<exists>m'. Update su m (VmsMsg I) = Inr (m', CmdNil) \<and>
              phase m' = Ready \<and> vms m' = I \<and> cursor m' = 0"
proof -
  have "loading_ok m"
    using run_loading_ok [OF NewModel_loading_ok assms(1)] .
  moreover have "loading m" "err m = None"
    using assms(2) by (auto simp: phase_def split: if_splits)
  ultimately have "cursor m = 0" by (simp add: loading_ok_def)
  then show ?thesis
    using \<open>err m = None\<close> by (simp add: Update_VmsMsg phase_def)
qed

theorem FetchSucceeded_from_Loading_witness:
  "run id test_model [KeyMsg ''down'', KeyMsg ''enter''] = Inr test_model \<and>
   phase test_model = Loading \<and> 1 \<le> length [vm1] \<and>
   (\<exists>m'. Update id test_model (VmsMsg [vm1]) = Inr (m', CmdNil) \<and>
         phase m' = Ready \<and> vms m' = [vm1] \<and> cursor m' = 0)"
proof -
  have 1: "run id (NewModel () test_client ''test-project'') [KeyMsg ''down'', KeyMsg ''enter'']
             = Inr test_model"
    by (simp add: Update_down Update_enter NewModel_def test_model_def)
  have 2: "phase test_model = Loading"
    by (simp add: phase_def test_model_def NewModel_def)
  have 3: "1 \<le> length [vm1]" by simp
  show ?thesis
    using 1 2 FetchSucceeded_from_Loading [OF 1 2 3]
    by (simp add: test_model_def)
qed

text \<open>
  C9: \<open>vmsMsg\<close> writes the fields \<open>vms\<close> and \<open>loading\<close> and nothing else, so the
  cursor after it is the cursor before it. The cursor is 0 after a fetch success
  because every model in phase \<open>Loading\<close> that a run reaches has cursor 0; on a
  model with a cursor other than 0 the cursor keeps that value.
\<close>

theorem FetchSucceeded_keeps_cursor:
  "Update su m (VmsMsg v) = Inr (m\<lparr>vms := v, loading := False\<rparr>, CmdNil)
   \<and> (\<forall>m'' cmd. Update su m (VmsMsg v) = Inr (m'', cmd) \<longrightarrow> cursor m'' = cursor m)
   \<and> (run su (NewModel s c pid) msgs = Inr m' \<and> phase m' = Loading \<longrightarrow> cursor m' = 0)
   \<and> (cursor m \<noteq> 0 \<longrightarrow>
        (\<exists>m''. Update su m (VmsMsg v) = Inr (m'', CmdNil) \<and> cursor m'' = cursor m \<and> cursor m'' \<noteq> 0))"
proof -
  have "cursor m' = 0" if "run su (NewModel s c pid) msgs = Inr m'" "phase m' = Loading"
  proof -
    have "loading_ok m'"
      using run_loading_ok [OF NewModel_loading_ok that(1)] .
    moreover have "loading m'"
      using that(2) by (auto simp: phase_def split: if_splits)
    ultimately show ?thesis by (simp add: loading_ok_def)
  qed
  then show ?thesis
    by (auto simp: Update_VmsMsg)
qed

theorem FetchSucceeded_keeps_cursor_witness:
  "cursor ready_model = 1 \<and>
   Update id ready_model (VmsMsg [vm1]) =
     Inr (ready_model\<lparr>vms := [vm1], loading := False\<rparr>, CmdNil) \<and>
   cursor (ready_model\<lparr>vms := [vm1], loading := False\<rparr>) = 1 \<and>
   run id test_model [KeyMsg ''down''] = Inr test_model \<and> phase test_model = Loading \<and>
   cursor test_model = 0"
proof -
  have 1: "cursor ready_model = 1"
    by (simp add: ready_model_def)
  have 2: "run id (NewModel () test_client ''test-project'') [KeyMsg ''down''] = Inr test_model"
    by (simp add: Update_down NewModel_def test_model_def)
  have 3: "phase test_model = Loading"
    by (simp add: phase_def test_model_def NewModel_def)
  show ?thesis
    using 1 2 3 FetchSucceeded_keeps_cursor [of id ready_model "[vm1]" "()" test_client
        "''test-project''" "[KeyMsg ''down'']" test_model]
    by (auto simp: test_model_def)
qed

subsection \<open>Cursor movement\<close>

text \<open>
  C4: the cursor saturates, in every model (so in every \<open>Ready\<close> model a run
  reaches). With the cursor at 0, \<open>up\<close> (or \<open>k\<close>) leaves the model unchanged,
  however often it is repeated; with the cursor at \<open>len(vms) - 1\<close>, \<open>down\<close> (or
  \<open>j\<close>) leaves it unchanged, however often it is repeated. Above 0, \<open>up\<close>
  lowers the cursor by exactly 1; below \<open>len(vms) - 1\<close>, \<open>down\<close> raises it by
  exactly 1.
\<close>

theorem cursor_saturates:
  "(k \<in> {''up'', ''k''} \<and> cursor m = 0 \<longrightarrow>
      Update su m (KeyMsg k) = Inr (m, CmdNil) \<and> run su m (replicate n (KeyMsg k)) = Inr m)
   \<and> (k \<in> {''down'', ''j''} \<and> cursor m = int (length (vms m)) - 1 \<longrightarrow>
      Update su m (KeyMsg k) = Inr (m, CmdNil) \<and> run su m (replicate n (KeyMsg k)) = Inr m)
   \<and> (k \<in> {''up'', ''k''} \<and> 0 < cursor m \<longrightarrow>
      Update su m (KeyMsg k) = Inr (m\<lparr>cursor := cursor m - 1\<rparr>, CmdNil))
   \<and> (k \<in> {''down'', ''j''} \<and> cursor m < int (length (vms m)) - 1 \<longrightarrow>
      Update su m (KeyMsg k) = Inr (m\<lparr>cursor := cursor m + 1\<rparr>, CmdNil))"
proof -
  have up0: "Update su m (KeyMsg k) = Inr (m, CmdNil)" if "k \<in> {''up'', ''k''}" "cursor m = 0"
    using that Update_up [of k su m] by auto
  have down0: "Update su m (KeyMsg k) = Inr (m, CmdNil)"
    if "k \<in> {''down'', ''j''}" "cursor m = int (length (vms m)) - 1"
    using that Update_down [of k su m] by auto
  have up1: "Update su m (KeyMsg k) = Inr (m\<lparr>cursor := cursor m - 1\<rparr>, CmdNil)"
    if "k \<in> {''up'', ''k''}" "0 < cursor m"
    using that Update_up [of k su m] by auto
  have down1: "Update su m (KeyMsg k) = Inr (m\<lparr>cursor := cursor m + 1\<rparr>, CmdNil)"
    if "k \<in> {''down'', ''j''}" "cursor m < int (length (vms m)) - 1"
    using that Update_down [of k su m] by auto
  show ?thesis
    using up0 down0 up1 down1 run_replicate_unchanged [of su m "KeyMsg k" CmdNil n]
    by blast
qed

theorem cursor_saturates_witness:
  "''up'' \<in> {''up'', ''k''} \<and> cursor test_model = 0 \<and>
   Update id test_model (KeyMsg ''up'') = Inr (test_model, CmdNil) \<and>
   run id test_model (replicate 3 (KeyMsg ''up'')) = Inr test_model \<and>
   ''down'' \<in> {''down'', ''j''} \<and> cursor ready_model = int (length (vms ready_model)) - 1 \<and>
   Update id ready_model (KeyMsg ''down'') = Inr (ready_model, CmdNil) \<and>
   run id ready_model (replicate 3 (KeyMsg ''down'')) = Inr ready_model \<and>
   0 < cursor ready_model \<and>
   Update id ready_model (KeyMsg ''up'') = Inr (ready_model\<lparr>cursor := 0\<rparr>, CmdNil) \<and>
   cursor (ready_model\<lparr>cursor := 0\<rparr>) < int (length (vms (ready_model\<lparr>cursor := 0\<rparr>))) - 1 \<and>
   Update id (ready_model\<lparr>cursor := 0\<rparr>) (KeyMsg ''down'') = Inr (ready_model, CmdNil)"
proof -
  have 1: "cursor test_model = 0" "cursor ready_model = 1" "length (vms ready_model) = 2"
    "ready_model\<lparr>cursor := 0\<rparr>\<lparr>cursor := 1\<rparr> = ready_model"
    by (simp_all add: test_model_def NewModel_def ready_model_def)
  show ?thesis
    using 1 cursor_saturates [of "''up''" test_model id 3]
      cursor_saturates [of "''down''" ready_model id 3]
      cursor_saturates [of "''up''" ready_model id 3]
      cursor_saturates [of "''down''" "ready_model\<lparr>cursor := 0\<rparr>" id 3]
    by simp
qed

subsection \<open>The empty inventory\<close>

text \<open>
  C5: in a \<open>Ready\<close> model that a run of the program reaches, with an empty
  inventory, \<open>enter\<close> returns the model unchanged and no command, and so do
  \<open>up\<close>, \<open>k\<close>, \<open>down\<close> and \<open>j\<close>. With exactly one record the cursor is 0
  and the four navigation keys leave the model unchanged too, but \<open>enter\<close>
  launches the session for that record.
\<close>

theorem empty_inventory_no_ops:
  assumes "one_fetch msgs" "run su (NewModel s c pid) msgs = Inr m" "phase m = Ready"
  shows "(vms m = [] \<longrightarrow>
            Update su m (KeyMsg ''enter'') = Inr (m, CmdNil) \<and>
            (\<forall>k \<in> {''up'', ''k'', ''down'', ''j''}. Update su m (KeyMsg k) = Inr (m, CmdNil)))
       \<and> (length (vms m) = 1 \<longrightarrow>
            cursor m = 0 \<and>
            (\<forall>k \<in> {''up'', ''k'', ''down'', ''j''}. Update su m (KeyMsg k) = Inr (m, CmdNil)) \<and>
            Update su m (KeyMsg ''enter'') =
              Inr (m, ExecProcess (ssh_command (vms m ! 0) (projectID m))))"
proof -
  have ok: "cursor_ok m"
    using reachable_ok [OF assms(1), of su s c pid] assms(2) by (auto simp: model_ok_def)
  have e: "Update su m (KeyMsg k) = Inr (m, CmdNil)"
    if "vms m = []" "k \<in> {''enter'', ''up'', ''k'', ''down'', ''j''}" for k
    using that ok by (intro Update_key_empty) (auto simp: cursor_ok_def is_quit_key_def)
  have one: "cursor m = 0" if "length (vms m) = 1"
    using that ok by (auto simp: cursor_ok_def split: if_splits)
  have nav: "Update su m (KeyMsg k) = Inr (m, CmdNil)"
    if "length (vms m) = 1" "k \<in> {''up'', ''k'', ''down'', ''j''}" for k
    using that one [OF that(1)] Update_up [of k su m] Update_down [of k su m] by auto
  have enter: "Update su m (KeyMsg ''enter'') = Inr (m, ExecProcess (ssh_command (vms m ! 0) (projectID m)))"
    if "length (vms m) = 1"
    using that one [OF that] by (auto simp: Update_enter)
  show ?thesis
    using e one nav enter by blast
qed

theorem empty_inventory_no_ops_witness:
  "one_fetch [VmsMsg []] \<and> run id test_model [VmsMsg []] = Inr empty_ready_model \<and>
   phase empty_ready_model = Ready \<and> vms empty_ready_model = [] \<and>
   Update id empty_ready_model (KeyMsg ''enter'') = Inr (empty_ready_model, CmdNil) \<and>
   Update id empty_ready_model (KeyMsg ''up'') = Inr (empty_ready_model, CmdNil) \<and>
   Update id empty_ready_model (KeyMsg ''down'') = Inr (empty_ready_model, CmdNil) \<and>
   one_fetch [VmsMsg [vm1]] \<and> run id test_model [VmsMsg [vm1]] = Inr one_item_model \<and>
   phase one_item_model = Ready \<and> length (vms one_item_model) = 1 \<and>
   Update id one_item_model (KeyMsg ''down'') = Inr (one_item_model, CmdNil) \<and>
   Update id one_item_model (KeyMsg ''enter'') =
     Inr (one_item_model, ExecProcess (ssh_command vm1 ''test-project''))"
proof -
  have 1: "one_fetch [VmsMsg []]" "one_fetch [VmsMsg [vm1]]"
    by (simp_all add: one_fetch_def fetch_results_def)
  have 2: "run id (NewModel () test_client ''test-project'') [VmsMsg []] = Inr empty_ready_model"
    by (simp add: Update_VmsMsg empty_ready_model_def test_model_def)
  have 3: "run id (NewModel () test_client ''test-project'') [VmsMsg [vm1]] = Inr one_item_model"
    by (simp add: Update_VmsMsg one_item_model_def test_model_def)
  have 4: "phase empty_ready_model = Ready" "vms empty_ready_model = []"
    by (simp_all add: empty_ready_model_def test_model_def NewModel_def phase_def)
  have 5: "phase one_item_model = Ready" "length (vms one_item_model) = 1"
    "vms one_item_model ! 0 = vm1" "projectID one_item_model = ''test-project''"
    by (simp_all add: one_item_model_def test_model_def NewModel_def phase_def)
  show ?thesis
    using 1 2 3 4 5 empty_inventory_no_ops [OF 1(1) 2 4(1)] empty_inventory_no_ops [OF 1(2) 3 5(1)]
    by (simp add: test_model_def)
qed

subsection \<open>Fetch failure\<close>

text \<open>
  C6: \<open>errMsg{err}\<close> on a model in phase \<open>Loading\<close> that a run reaches gives a
  model in phase \<open>Failed\<close> whose \<open>err\<close> is that error (with the same message),
  without a panic and without \<open>tea.Quit\<close>. From then on every key other than the
  two quit keys returns that model unchanged and no command, one key or many;
  any other message does the same, and a tick changes the spinner only and
  returns the spinner's command. The quit keys still return \<open>tea.Quit\<close>. No call
  of \<open>Update\<close> ever returns \<open>fetchVmsCmd\<close>: there is no retry. And a failing
  \<open>FetchInstances\<close> reaches \<open>Update\<close> as the message \<open>errMsg{err}\<close>.
\<close>

theorem fetch_failure_terminal:
  assumes "run su (NewModel s c pid) msgs = Inr m" "phase m = Loading"
  shows "\<exists>m'. Update su m (ErrMsg e) = Inr (m', CmdNil) \<and>
              phase m' = Failed \<and> err m' = Some (errMsg e) \<and> Error (errMsg e) = Error e \<and>
              (\<forall>k. \<not> is_quit_key k \<longrightarrow> Update su m' (KeyMsg k) = Inr (m', CmdNil)) \<and>
              (\<forall>ks. (\<forall>k \<in> set ks. \<not> is_quit_key k) \<longrightarrow> run su m' (map KeyMsg ks) = Inr m') \<and>
              Update su m' OtherMsg = Inr (m', CmdNil) \<and>
              Update su m' TickMsg = Inr (m'\<lparr>spinner := su (spinner m')\<rparr>, SpinnerCmd) \<and>
              (\<forall>k. is_quit_key k \<longrightarrow> Update su m' (KeyMsg k) = Inr (m', Quit)) \<and>
              (\<forall>m0 msg m1 cmd. Update su m0 msg = Inr (m1, cmd) \<longrightarrow> \<not> issues_fetch cmd) \<and>
              (\<forall>r e'. FetchInstances (gcpClient m) (projectID m) = Inr (r, Some e') \<longrightarrow>
                 fetchVmsCmd m = Inr (ErrMsg e'))"
proof -
  let ?m' = "m\<lparr>err := Some (errMsg e), loading := False\<rparr>"
  have "loading_ok m"
    using run_loading_ok [OF NewModel_loading_ok assms(1)] .
  moreover have "loading m"
    using assms(2) by (auto simp: phase_def split: if_splits)
  ultimately have empty: "vms ?m' = []" "cursor ?m' = 0"
    by (simp_all add: loading_ok_def)
  have key: "Update su ?m' (KeyMsg k) = Inr (?m', CmdNil)" if "\<not> is_quit_key k" for k
    using Update_key_empty [OF empty that] .
  have keys: "run su ?m' (map KeyMsg ks) = Inr ?m'" if "\<forall>k \<in> set ks. \<not> is_quit_key k" for ks
    using that key by (intro run_keys_unchanged) blast
  have fetch: "fetchVmsCmd m = Inr (ErrMsg e')"
    if "FetchInstances (gcpClient m) (projectID m) = Inr (r, Some e')" for r e'
    using that by (simp add: fetchVmsCmd_def)
  have "Update su m (ErrMsg e) = Inr (?m', CmdNil)" "phase ?m' = Failed"
    "err ?m' = Some (errMsg e)" "Error (errMsg e) = Error e"
    "Update su ?m' OtherMsg = Inr (?m', CmdNil)"
    "Update su ?m' TickMsg = Inr (?m'\<lparr>spinner := su (spinner ?m')\<rparr>, SpinnerCmd)"
    by (simp_all add: Update_ErrMsg Update_OtherMsg Update_TickMsg phase_def)
  with key keys fetch Update_quit Update_no_fetch show ?thesis
    by (intro exI [of _ ?m']) blast
qed

theorem fetch_failure_terminal_witness:
  "run id test_model [] = Inr test_model \<and> phase test_model = Loading \<and>
   Update id test_model (ErrMsg (errorString ''internal server error'')) = Inr (failed_model, CmdNil) \<and>
   phase failed_model = Failed \<and>
   map_option Error (err failed_model) = Some ''internal server error'' \<and>
   Update id failed_model (KeyMsg ''down'') = Inr (failed_model, CmdNil) \<and>
   Update id failed_model (KeyMsg ''up'') = Inr (failed_model, CmdNil) \<and>
   Update id failed_model (KeyMsg ''enter'') = Inr (failed_model, CmdNil) \<and>
   Update id failed_model (KeyMsg ''q'') = Inr (failed_model, Quit)"
proof -
  have 1: "run id (NewModel () test_client ''test-project'') [] = Inr test_model"
    by (simp add: test_model_def)
  have 2: "phase test_model = Loading"
    by (simp add: phase_def test_model_def NewModel_def)
  have 3: "Update id test_model (ErrMsg (errorString ''internal server error''))
             = Inr (failed_model, CmdNil)"
    by (simp add: Update_ErrMsg failed_model_def)
  have 4: "\<not> is_quit_key ''down''" "\<not> is_quit_key ''up''" "\<not> is_quit_key ''enter''"
    "is_quit_key ''q''"
    by (simp_all add: is_quit_key_def)
  show ?thesis
    using 1 2 3 4 fetch_failure_terminal [OF 1 2, of "errorString ''internal server error''"]
    by auto
qed

end
